theory Spec2Isabelle
  imports Complex_Main
begin

section \<open>Python text primitives used by picosnitch\<close>

text \<open>
  Text is a list of characters, each standing for one code point below 256 (the
  timestamps of \<^verbatim>\<open>time.ctime()\<close> are plain ASCII). \<open>isspace\<close> is Python's
  \<^verbatim>\<open>str.isspace\<close> on those code points.
\<close>

definition isspace :: "char \<Rightarrow> bool" where
  "isspace c \<longleftrightarrow>
     c = CHR 0x09 \<or> c = CHR 0x0A \<or> c = CHR 0x0B \<or> c = CHR 0x0C \<or> c = CHR 0x0D \<or>
     c = CHR 0x1C \<or> c = CHR 0x1D \<or> c = CHR 0x1E \<or> c = CHR 0x1F \<or> c = CHR 0x20 \<or>
     c = CHR 0x85 \<or> c = CHR 0xA0"

text \<open>
  \<^verbatim>\<open>s.split()\<close> with no separator: runs of whitespace separate the fields and no
  empty field is produced. \<open>split_from tok s\<close> carries the field read so far.
\<close>

fun split_from :: "string \<Rightarrow> string \<Rightarrow> string list" where
  "split_from tok [] = (if tok = [] then [] else [tok])"
| "split_from tok (c # cs) =
     (if isspace c
      then (if tok = [] then split_from [] cs else tok # split_from [] cs)
      else split_from (tok @ [c]) cs)"

definition str_split :: "string \<Rightarrow> string list" where
  "str_split s = split_from [] s"

text \<open>\<^verbatim>\<open>sub in s\<close> on two strings: \<open>sub\<close> occurs in \<open>s\<close> as a contiguous block.\<close>

fun startswith :: "string \<Rightarrow> string \<Rightarrow> bool" where
  "startswith s [] = True"
| "startswith [] (p # ps) = False"
| "startswith (c # cs) (p # ps) = (c = p \<and> startswith cs ps)"

fun str_contains :: "string \<Rightarrow> string \<Rightarrow> bool" where
  "str_contains [] sub = (sub = [])"
| "str_contains (c # cs) sub = (startswith (c # cs) sub \<or> str_contains cs sub)"

text \<open>\<^verbatim>\<open>str(n)\<close> for a non-negative integer (a process id or a port): its decimal digits.\<close>

definition digit_char :: "nat \<Rightarrow> char" where
  "digit_char d = char_of (48 + d)"

function str_nat :: "nat \<Rightarrow> string" where
  "str_nat n = (if n < 10 then [digit_char n] else str_nat (n div 10) @ [digit_char (n mod 10)])"
  by pat_completeness auto
termination
  by (relation "measure (\<lambda>n. n)") auto

section \<open>Data model\<close>

text \<open>
  The Snitch State is the dictionary built by \<^verbatim>\<open>read()\<close>: the keys \<^verbatim>\<open>Config\<close>,
  \<^verbatim>\<open>Errors\<close>, \<^verbatim>\<open>Executables\<close>, \<^verbatim>\<open>Names\<close> and \<^verbatim>\<open>Processes\<close>. \<^verbatim>\<open>Processes\<close> maps an
  executable path to a Process Entry, a dictionary with the six keys below.
\<close>

record config =
  polling_interval :: real
  write_interval :: real
  use_pcap :: bool

record entry =
  name :: string
  cmdlines :: "string list"
  first_seen :: string
  last_seen :: string
  days_seen :: int
  remote_addresses :: "string list"

record snitch =
  Config :: config
  Errors :: "string list"
  Executables :: "string list"
  Names :: "string list"
  Processes :: "string \<rightharpoonup> entry"

text \<open>
  The dictionary \<^verbatim>\<open>proc\<close> that \<^verbatim>\<open>psutil.Process(pid).as_dict\<close> returns. The command line
  is whatever value psutil yields (a list of arguments, or the \<^verbatim>\<open>ad_value\<close> \<^verbatim>\<open>""\<close>); the
  code only ever applies \<^verbatim>\<open>str\<close> to it, so its type is left open and \<^verbatim>\<open>str\<close> on it is
  an argument \<open>str\<close> of the two operations.
\<close>

record 'c proc =
  proc_name :: string
  proc_exe :: string
  proc_cmdline :: 'c
  proc_pid :: nat

datatype py_exc = KeyError | ValueError | AttributeError | NameError | PsutilError

text \<open>The state \<^verbatim>\<open>read()\<close> returns when no state file exists.\<close>

definition default_snitch :: snitch where
  "default_snitch =
     \<lparr>Config = \<lparr>polling_interval = 2 / 10, write_interval = 600, use_pcap = False\<rparr>,
      Errors = [], Executables = [], Names = [], Processes = Map.empty\<rparr>"

section \<open>Attribution engine\<close>

text \<open>
  \<^verbatim>\<open>new_entry\<close> and \<^verbatim>\<open>update_entry\<close> mutate the state in place; here they return the new
  state. The desktop notification of \<^verbatim>\<open>new_entry\<close> is not part of the Snitch State and
  is left out. \<^verbatim>\<open>update_entry\<close> raises \<^verbatim>\<open>KeyError\<close> when the executable has no entry.
\<close>

definition new_entry :: "('c \<Rightarrow> string) \<Rightarrow> snitch \<Rightarrow> 'c proc \<Rightarrow> string \<Rightarrow> string \<Rightarrow> snitch" where
  "new_entry str s p raddr_ip ctime =
     (let names1 = Names s @ [proc_name p];
          names2 = (if count_list names1 (proc_name p) > 1
                    then butlast names1 @ [last names1 @ '' (different executable location)'']
                    else names1)
      in s\<lparr>Executables := Executables s @ [proc_exe p],
            Names := names2,
            Processes := (Processes s)(proc_exe p \<mapsto>
              \<lparr>name = proc_name p,
               cmdlines = [str (proc_cmdline p)],
               first_seen = ctime,
               last_seen = ctime,
               days_seen = 1,
               remote_addresses = [raddr_ip]\<rparr>)\<rparr>)"

definition update_entry :: "('c \<Rightarrow> string) \<Rightarrow> snitch \<Rightarrow> 'c proc \<Rightarrow> string \<Rightarrow> string \<Rightarrow> py_exc + snitch" where
  "update_entry str s p raddr_ip ctime =
     (case Processes s (proc_exe p) of
        None \<Rightarrow> Inl KeyError
      | Some e0 \<Rightarrow>
          let e1 = (if \<not> str_contains (name e0) (proc_name p)
                    then e0\<lparr>name := name e0 @ '' alternative='' @ proc_name p\<rparr> else e0);
              e2 = (if str (proc_cmdline p) \<notin> set (cmdlines e1)
                    then e1\<lparr>cmdlines := cmdlines e1 @ [str (proc_cmdline p)]\<rparr> else e1);
              e3 = (if raddr_ip \<notin> set (remote_addresses e2)
                    then e2\<lparr>remote_addresses := remote_addresses e2 @ [raddr_ip]\<rparr> else e2);
              e4 = (if take 3 (str_split ctime) \<noteq> take 3 (str_split (last_seen e3))
                    then e3\<lparr>days_seen := days_seen e3 + 1\<rparr> else e3)
          in Inr (s\<lparr>Processes := (Processes s)(proc_exe p \<mapsto> e4\<lparr>last_seen := ctime\<rparr>)\<rparr>))"

text \<open>
  The dispatch of \<^verbatim>\<open>poll\<close> (lines 79 to 82): create the entry when the executable is not
  yet a key of \<^verbatim>\<open>Processes\<close>, update it otherwise.
\<close>

definition attribute :: "('c \<Rightarrow> string) \<Rightarrow> snitch \<Rightarrow> 'c proc \<Rightarrow> string \<Rightarrow> string \<Rightarrow> py_exc + snitch" where
  "attribute str s p raddr_ip ctime =
     (if proc_exe p \<notin> dom (Processes s)
      then Inr (new_entry str s p raddr_ip ctime)
      else update_entry str s p raddr_ip ctime)"

section \<open>Connection poller\<close>

text \<open>
  A connection is psutil's named tuple \<^verbatim>\<open>sconn\<close>; \<^verbatim>\<open>laddr\<close> and \<^verbatim>\<open>raddr\<close> are an
  \<^verbatim>\<open>addr(ip, port)\<close> or the empty tuple (here \<open>None\<close>), and \<^verbatim>\<open>pid\<close> may be \<^verbatim>\<open>None\<close>.
\<close>

record addr =
  ip :: string
  port :: nat

record conn =
  fd :: int
  family :: nat
  socktype :: nat
  laddr :: "addr option"
  raddr :: "addr option"
  status :: string
  pid :: "nat option"

text \<open>A record of the capture queue, as \<^verbatim>\<open>parse_packet\<close> builds it.\<close>

record packet =
  direction :: string
  laddr_ip :: string
  laddr_port :: nat
  raddr_ip :: string

text \<open>
  \<^verbatim>\<open>pcap_dict\<close>, the candidate map keyed by local port, in insertion order (the order in
  which Python iterates a dictionary). \<^verbatim>\<open>pcap_dict.pop(k, None)\<close> removes the key if it is
  there.
\<close>

type_synonym pcap = "(nat \<times> packet) list"

definition dict_pop :: "nat \<Rightarrow> pcap \<Rightarrow> pcap" where
  "dict_pop k d = filter (\<lambda>kv. fst kv \<noteq> k) d"

text \<open>
  What the code takes from libraries that are not part of the repository: whether
  \<^verbatim>\<open>ipaddress.ip_address(x).is_private\<close> holds (\<open>None\<close> when \<^verbatim>\<open>ip_address\<close> raises
  \<^verbatim>\<open>ValueError\<close>), \<^verbatim>\<open>str\<close> of a connection and \<^verbatim>\<open>str\<close> of a command line.
\<close>

record 'c pylib =
  is_private :: "string \<Rightarrow> bool option"
  str_conn :: "conn \<Rightarrow> string"
  str_cmdline :: "'c \<Rightarrow> string"

text \<open>
  What one call of \<^verbatim>\<open>poll\<close> observes of the machine: \<^verbatim>\<open>time.ctime()\<close>, the list
  \<^verbatim>\<open>psutil.net_connections(kind='inet')\<close>, and for each connection the result of
  \<^verbatim>\<open>psutil.Process(conn.pid).as_dict(...)\<close> at the moment the loop reaches it (\<open>None\<close>
  when psutil raises).
\<close>

record 'c world =
  ctime_now :: string
  net_connections :: "conn list"
  as_dict :: "conn \<Rightarrow> 'c proc option"

text \<open>
  The variables the loop of \<^verbatim>\<open>poll\<close> changes: the state, the dictionary \<^verbatim>\<open>proc\<close> of the
  process resolved last (\<open>None\<close> stands for the initial placeholder, whose \<^verbatim>\<open>pid\<close> is
  \<^verbatim>\<open>""\<close> and equals no connection's pid), and the candidate map.
\<close>

record 'c poll_state =
  st_snitch :: snitch
  st_proc :: "'c proc option"
  st_pcap :: pcap

text \<open>
  The body of the \<^verbatim>\<open>try\<close> (lines 76 to 82) returns the exception it raised, if any, with
  the variables as they were at that point.
\<close>

definition try_body :: "'c pylib \<Rightarrow> 'c world \<Rightarrow> conn \<Rightarrow> 'c poll_state \<Rightarrow> py_exc option \<times> 'c poll_state" where
  "try_body L W c st =
     (case raddr c of
        None \<Rightarrow> (None, st)
      | Some ra \<Rightarrow>
          (case is_private L (ip ra) of
             None \<Rightarrow> (Some ValueError, st)
           | Some True \<Rightarrow> (None, st)
           | Some False \<Rightarrow>
               (case laddr c of
                  None \<Rightarrow> (Some AttributeError, st)
                | Some la \<Rightarrow>
                    let st1 = st\<lparr>st_pcap := dict_pop (port la) (st_pcap st)\<rparr> in
                    (case as_dict W c of
                       None \<Rightarrow> (Some PsutilError, st1)
                     | Some p \<Rightarrow>
                         let st2 = st1\<lparr>st_proc := Some p\<rparr> in
                         (case attribute (str_cmdline L) (st_snitch st2) p (ip ra) (ctime_now W) of
                            Inl e \<Rightarrow> (Some e, st2)
                          | Inr s' \<Rightarrow> (None, st2\<lparr>st_snitch := s'\<rparr>))))))"

text \<open>
  The \<^verbatim>\<open>except Exception\<close> handler (lines 84 to 90), without its notification. What it
  appends to the description of the connection depends on \<^verbatim>\<open>proc\<close>, the process resolved
  last.
\<close>

definition pid_note :: "conn \<Rightarrow> 'c proc option \<Rightarrow> string" where
  "pid_note c last_proc =
     (case last_proc of
        None \<Rightarrow> ''{process no longer exists}''
      | Some p \<Rightarrow> (if pid c = Some (proc_pid p) then str_nat (proc_pid p)
                   else ''{process no longer exists}''))"

definition except_body :: "'c pylib \<Rightarrow> 'c world \<Rightarrow> conn \<Rightarrow> 'c poll_state \<Rightarrow> 'c poll_state" where
  "except_body L W c st =
     (let error = str_conn L c @ pid_note c (st_proc st)
      in st\<lparr>st_snitch := (st_snitch st)\<lparr>Errors := Errors (st_snitch st) @ [ctime_now W @ '' '' @ error]\<rparr>\<rparr>)"

definition poll_conn :: "'c pylib \<Rightarrow> 'c world \<Rightarrow> conn \<Rightarrow> 'c poll_state \<Rightarrow> 'c poll_state" where
  "poll_conn L W c st =
     (case try_body L W c st of
        (None, st') \<Rightarrow> st'
      | (Some e, st') \<Rightarrow> except_body L W c st')"

fun poll_loop :: "'c pylib \<Rightarrow> 'c world \<Rightarrow> conn list \<Rightarrow> 'c poll_state \<Rightarrow> 'c poll_state" where
  "poll_loop L W [] st = st"
| "poll_loop L W (c # cs) st = poll_loop L W cs (poll_conn L W c st)"

text \<open>
  \<^verbatim>\<open>current_connections\<close> is the set of the listed connections, here the list without
  repetitions, in the order the loop visits it; \<^verbatim>\<open>current_connections - last_connections\<close>
  are the new ones.
\<close>

definition current_connections :: "'c world \<Rightarrow> conn list" where
  "current_connections W = remdups (net_connections W)"

definition new_connections :: "'c world \<Rightarrow> conn list \<Rightarrow> conn list" where
  "new_connections W last_connections = filter (\<lambda>c. c \<notin> set last_connections) (current_connections W)"

text \<open>The second loop (lines 91 to 93): one diagnostic per key left in the candidate map.\<close>

definition missed_errors :: "string \<Rightarrow> pcap \<Rightarrow> string list" where
  "missed_errors ctime d = map (\<lambda>kv. ctime @ '' '' @ str_nat (fst kv)) d"

text \<open>
  \<^verbatim>\<open>poll\<close> returns the current connections; the state and the candidate map, which it
  changes in place, are returned with them.
\<close>

definition poll :: "'c pylib \<Rightarrow> 'c world \<Rightarrow> snitch \<Rightarrow> conn list \<Rightarrow> pcap \<Rightarrow> conn list \<times> snitch \<times> pcap" where
  "poll L W s last_connections pcap_dict =
     (let st = poll_loop L W (new_connections W last_connections)
                 \<lparr>st_snitch = s, st_proc = None, st_pcap = pcap_dict\<rparr>;
          s' = (st_snitch st)\<lparr>Errors := Errors (st_snitch st) @ missed_errors (ctime_now W) (st_pcap st)\<rparr>
      in (current_connections W, s', st_pcap st))"

section \<open>The run loop\<close>

text \<open>
  One iteration of the \<^verbatim>\<open>while True\<close> of \<^verbatim>\<open>loop\<close>, up to the call of \<^verbatim>\<open>poll\<close> (lines 137
  to 144); the sleep and the periodic write that follow do not change the state and are
  left out. The capture queue is \<open>None\<close> when capture is off, and otherwise the list of
  the records it holds when the iteration starts.

  \<^verbatim>\<open>known_ports\<close> reads \<^verbatim>\<open>conn.laddr.port\<close> of every connection of the last snapshot, which
  raises when a local address is the empty tuple.
\<close>

fun known_ports :: "conn list \<Rightarrow> py_exc + nat list" where
  "known_ports [] = Inr []"
| "known_ports (c # cs) =
     (case laddr c of
        None \<Rightarrow> Inl AttributeError
      | Some la \<Rightarrow> (case known_ports cs of Inl e \<Rightarrow> Inl e | Inr ps \<Rightarrow> Inr (port la # ps)))"

text \<open>
  The inner \<^verbatim>\<open>while not queue.empty()\<close>: its first statement is \<^verbatim>\<open>packet = q.get()\<close>, and
  \<^verbatim>\<open>q\<close> is neither a local of \<^verbatim>\<open>loop\<close> nor a global of the module (the queue is bound to
  \<^verbatim>\<open>queue\<close>), so the statement raises \<^verbatim>\<open>NameError\<close> as soon as the queue holds a record;
  the two lines after it are never reached.
\<close>

fun drain_queue :: "nat list \<Rightarrow> packet list \<Rightarrow> pcap \<Rightarrow> py_exc + pcap" where
  "drain_queue known [] d = Inr d"
| "drain_queue known (pk # q) d = Inl NameError"

record loop_state =
  lp_snitch :: snitch
  lp_pcap :: pcap
  lp_connections :: "conn list"

definition candidates :: "packet list option \<Rightarrow> loop_state \<Rightarrow> py_exc + pcap" where
  "candidates queue lp =
     (case queue of
        None \<Rightarrow> Inr (lp_pcap lp)
      | Some q \<Rightarrow>
          (case known_ports (lp_connections lp) of
             Inl e \<Rightarrow> Inl e
           | Inr known \<Rightarrow> drain_queue known q []))"

definition tick :: "'c pylib \<Rightarrow> 'c world \<Rightarrow> packet list option \<Rightarrow> loop_state \<Rightarrow> py_exc + loop_state" where
  "tick L W queue lp =
     (case candidates queue lp of
        Inl e \<Rightarrow> Inl e
      | Inr d \<Rightarrow>
          (case poll L W (lp_snitch lp) (lp_connections lp) d of
             (conns, s', d') \<Rightarrow> Inr \<lparr>lp_snitch = s', lp_pcap = d', lp_connections = conns\<rparr>))"

section \<open>Runs\<close>

text \<open>
  A run of poll ticks from a state and a last snapshot: each tick has its own
  observation of the machine and its own candidate map.
\<close>

fun run_polls :: "'c pylib \<Rightarrow> ('c world \<times> pcap) list \<Rightarrow> snitch \<Rightarrow> conn list \<Rightarrow> snitch" where
  "run_polls L [] s last_connections = s"
| "run_polls L (Wd # ws) s last_connections =
     (case poll L (fst Wd) s last_connections (snd Wd) of
        (conns, s', d') \<Rightarrow> run_polls L ws s' conns)"

text \<open>
  \<open>evolves L s s'\<close>: the program gets from state \<open>s\<close> to state \<open>s'\<close> by some number of
  calls of \<^verbatim>\<open>poll\<close>, whatever each call observes. The reachable states are those it gets
  to from the default state.
\<close>

inductive evolves :: "'c pylib \<Rightarrow> snitch \<Rightarrow> snitch \<Rightarrow> bool" for L :: "'c pylib" and s :: snitch where
  evolves_refl: "evolves L s s"
| evolves_poll: "evolves L s s' \<Longrightarrow> evolves L s (fst (snd (poll L W s' last_connections pcap_dict)))"


text \<open>
  A new connection is public when it has a remote address and \<^verbatim>\<open>is_private\<close> is false
  for it; it is resolved to a process when, in addition, its local port could be read and
  the process lookup returned.
\<close>

definition public_conn :: "'c pylib \<Rightarrow> conn \<Rightarrow> bool" where
  "public_conn L c = (case raddr c of None \<Rightarrow> False | Some ra \<Rightarrow> is_private L (ip ra) = Some False)"

definition resolved :: "'c pylib \<Rightarrow> 'c world \<Rightarrow> conn \<Rightarrow> 'c proc option" where
  "resolved L W c = (if public_conn L c \<and> laddr c \<noteq> None then as_dict W c else None)"

definition resolved_exes :: "'c pylib \<Rightarrow> 'c world \<Rightarrow> conn list \<Rightarrow> string list" where
  "resolved_exes L W last_connections =
     List.map_filter (\<lambda>c. map_option proc_exe (resolved L W c)) (new_connections W last_connections)"

fun observed_exes :: "'c pylib \<Rightarrow> ('c world \<times> pcap) list \<Rightarrow> conn list \<Rightarrow> string list" where
  "observed_exes L [] last_connections = []"
| "observed_exes L (Wd # ws) last_connections =
     resolved_exes L (fst Wd) last_connections @ observed_exes L ws (current_connections (fst Wd))"

section \<open>Example inputs\<close>

text \<open>
  Concrete values at which the theorems below are instantiated. \<open>join_args\<close> stands in
  for \<^verbatim>\<open>str\<close> on a command line there.
\<close>

definition t_jan1 :: string where "t_jan1 = ''Mon Jan  1 00:00:00 2024''"
definition t_jan2 :: string where "t_jan2 = ''Tue Jan  2 00:00:00 2024''"
definition join_args :: "string list \<Rightarrow> string" where
  "join_args xs = concat (map (\<lambda>x. x @ '' '') xs)"
definition curl :: "string list proc" where
  "curl = \<lparr>proc_name = ''curl'', proc_exe = ''/usr/bin/curl'',
           proc_cmdline = [''curl'', ''example.com''], proc_pid = 4242\<rparr>"
definition curl_snap :: "string list proc" where
  "curl_snap = \<lparr>proc_name = ''curl'', proc_exe = ''/snap/bin/curl'',
           proc_cmdline = [''curl'', ''-I'', ''example.org''], proc_pid = 4300\<rparr>"

definition conn1 :: conn where
  "conn1 = \<lparr>fd = 3, family = 2, socktype = 1,
            laddr = Some \<lparr>ip = ''192.168.1.5'', port = 50000\<rparr>,
            raddr = Some \<lparr>ip = ''93.184.216.34'', port = 443\<rparr>,
            status = ''ESTABLISHED'', pid = Some 4242\<rparr>"

definition conn2 :: conn where
  "conn2 = \<lparr>fd = 4, family = 2, socktype = 1,
            laddr = Some \<lparr>ip = ''192.168.1.5'', port = 50001\<rparr>,
            raddr = Some \<lparr>ip = ''8.8.8.8'', port = 443\<rparr>,
            status = ''ESTABLISHED'', pid = Some 4242\<rparr>"

definition conn3 :: conn where
  "conn3 = \<lparr>fd = 5, family = 2, socktype = 1,
            laddr = Some \<lparr>ip = ''192.168.1.5'', port = 50002\<rparr>,
            raddr = Some \<lparr>ip = ''1.1.1.1'', port = 443\<rparr>,
            status = ''ESTABLISHED'', pid = Some 977\<rparr>"

definition conn_local :: conn where
  "conn_local = \<lparr>fd = 6, family = 2, socktype = 1,
            laddr = Some \<lparr>ip = ''127.0.0.1'', port = 50003\<rparr>,
            raddr = Some \<lparr>ip = ''127.0.0.1'', port = 631\<rparr>,
            status = ''ESTABLISHED'', pid = Some 4242\<rparr>"

definition lib0 :: "string list pylib" where
  "lib0 = \<lparr>is_private = (\<lambda>a. if a = ''127.0.0.1'' \<or> a = ''192.168.1.5'' then Some True
                              else if a = [] then None else Some False),
           str_conn = (\<lambda>c. ''sconn(fd='' @ str_nat (nat (fd c)) @ '')''),
           str_cmdline = join_args\<rparr>"

definition world1 :: "string list world" where
  "world1 = \<lparr>ctime_now = t_jan1, net_connections = [conn1],
             as_dict = (\<lambda>c. if c = conn1 then Some curl else None)\<rparr>"

definition world2 :: "string list world" where
  "world2 = \<lparr>ctime_now = t_jan2, net_connections = [conn1, conn2],
             as_dict = (\<lambda>c. if c = conn2 then Some curl else None)\<rparr>"

text \<open>A tick in which the process of \<open>conn3\<close> has exited before it is looked up.\<close>

definition world3 :: "string list world" where
  "world3 = \<lparr>ctime_now = t_jan2, net_connections = [conn3, conn2, conn_local],
             as_dict = (\<lambda>c. if c = conn2 then Some curl else None)\<rparr>"

definition packet1 :: packet where
  "packet1 = \<lparr>direction = ''outgoing'', laddr_ip = ''192.168.1.5'', laddr_port = 50007,
              raddr_ip = ''9.9.9.9''\<rparr>"


definition snapshot1 :: "conn list" where
  "snapshot1 = fst (poll lib0 world1 default_snitch [] [])"
definition state1 :: snitch where
  "state1 = fst (snd (poll lib0 world1 default_snitch [] []))"
definition state2 :: snitch where
  "state2 = fst (snd (poll lib0 world2 state1 snapshot1 []))"

definition recorded :: "snitch \<Rightarrow> string \<Rightarrow> string \<Rightarrow> string \<Rightarrow> bool" where
  "recorded s x rip t =
     (case Processes s x of None \<Rightarrow> False
      | Some e \<Rightarrow> rip \<in> set (remote_addresses e) \<and> last_seen e = t)"

section \<open>Text lemmas\<close>

lemma startswith_iff: "startswith s p \<longleftrightarrow> (\<exists>r. s = p @ r)"
  by (induction s p rule: startswith.induct) auto

lemma str_contains_iff: "str_contains s sub \<longleftrightarrow> (\<exists>a b. s = a @ sub @ b)"
proof (induction s)
  case Nil
  then show ?case by auto
next
  case (Cons c cs)
  show ?case
  proof
    assume "str_contains (c # cs) sub"
    then consider "startswith (c # cs) sub" | "str_contains cs sub" by auto
    then show "\<exists>a b. c # cs = a @ sub @ b"
    proof cases
      case 1
      then obtain r where "c # cs = sub @ r" by (auto simp: startswith_iff)
      then have "c # cs = [] @ sub @ r" by simp
      then show ?thesis by blast
    next
      case 2
      then obtain a b where "cs = a @ sub @ b" using Cons.IH by blast
      then have "c # cs = (c # a) @ sub @ b" by simp
      then show ?thesis by blast
    qed
  next
    assume "\<exists>a b. c # cs = a @ sub @ b"
    then obtain a b where ab: "c # cs = a @ sub @ b" by blast
    show "str_contains (c # cs) sub"
    proof (cases a)
      case Nil
      then have "startswith (c # cs) sub" using ab by (auto simp: startswith_iff)
      then show ?thesis by simp
    next
      case (Cons x a')
      then have "cs = a' @ sub @ b" using ab by simp
      then have "str_contains cs sub" using Cons.IH by blast
      then show ?thesis by simp
    qed
  qed
qed

lemma str_contains_suffix: "str_contains (a @ sub) sub"
proof -
  have "a @ sub = a @ sub @ []" by simp
  then show ?thesis unfolding str_contains_iff by blast
qed

lemma update_entry_Some:
  assumes "Processes s (proc_exe p) = Some e"
  shows "\<exists>s' e'. update_entry str s p rip t = Inr s' \<and> Processes s' (proc_exe p) = Some e' \<and>
     last_seen e' = t \<and> first_seen e' = first_seen e \<and>
     str_contains (name e') (proc_name p) \<and> str (proc_cmdline p) \<in> set (cmdlines e') \<and>
     rip \<in> set (remote_addresses e') \<and>
     days_seen e' = (if take 3 (str_split t) \<noteq> take 3 (str_split (last_seen e)) then days_seen e + 1 else days_seen e)"
  using assms str_contains_suffix[of "name e @ '' alternative=''" "proc_name p"]
  by (simp add: update_entry_def Let_def)

lemma update_entry_twice:
  assumes "Processes s (proc_exe p) = Some e" "update_entry str s p rip t = Inr s1"
  shows "update_entry str s1 p rip t = Inr s1"
proof -
  obtain e1 where e1: "Processes s1 (proc_exe p) = Some e1" "last_seen e1 = t"
     "str_contains (name e1) (proc_name p)" "str (proc_cmdline p) \<in> set (cmdlines e1)"
     "rip \<in> set (remote_addresses e1)"
    using update_entry_Some[OF assms(1), of str rip t] assms(2) by auto
  have "e1\<lparr>last_seen := t\<rparr> = e1" using e1(2) by simp
  moreover have "(Processes s1)(proc_exe p \<mapsto> e1) = Processes s1" using e1(1) by (rule map_upd_triv)
  ultimately have "s1\<lparr>Processes := (Processes s1)(proc_exe p \<mapsto> e1\<lparr>last_seen := t\<rparr>)\<rparr> = s1" by simp
  then show ?thesis using e1 by (simp add: update_entry_def Let_def)
qed


section \<open>Claims on the attribution engine\<close>

text \<open>
  Claim C3. Updating is idempotent: in a state that has an entry for the executable of
  \<open>p\<close>, \<^verbatim>\<open>update_entry\<close> returns, and a second call with the same process, remote
  address and timestamp returns the very state the first call produced. So the second
  call appends nothing to \<^verbatim>\<open>cmdlines\<close> or \<^verbatim>\<open>remote addresses\<close>, leaves \<^verbatim>\<open>name\<close> and
  \<^verbatim>\<open>days seen\<close> as they were, and \<^verbatim>\<open>last seen\<close> is the timestamp.
\<close>

theorem update_entry_idempotent:
  assumes "Processes s (proc_exe p) = Some e"
  shows "\<exists>s1 e1. update_entry str s p rip t = Inr s1 \<and> update_entry str s1 p rip t = Inr s1 \<and>
           Processes s1 (proc_exe p) = Some e1 \<and> last_seen e1 = t"
proof -
  obtain s1 e1 where s1: "update_entry str s p rip t = Inr s1"
      "Processes s1 (proc_exe p) = Some e1" "last_seen e1 = t"
    using update_entry_Some[OF assms, of str rip t] by blast
  from update_entry_twice[OF assms s1(1)] s1 show ?thesis by blast
qed

theorem update_entry_idempotent_witness:
  "Processes (new_entry join_args default_snitch curl ''93.184.216.34'' t_jan1) (proc_exe curl)
     = Some \<lparr>name = ''curl'', cmdlines = [''curl example.com ''], first_seen = t_jan1,
             last_seen = t_jan1, days_seen = 1, remote_addresses = [''93.184.216.34'']\<rparr>
   \<and> (\<exists>s1 e1. update_entry join_args (new_entry join_args default_snitch curl ''93.184.216.34'' t_jan1)
                  curl ''8.8.8.8'' t_jan2 = Inr s1
        \<and> update_entry join_args s1 curl ''8.8.8.8'' t_jan2 = Inr s1
        \<and> Processes s1 (proc_exe curl) = Some e1 \<and> last_seen e1 = t_jan2)"
proof -
  have h: "Processes (new_entry join_args default_snitch curl ''93.184.216.34'' t_jan1) (proc_exe curl)
     = Some \<lparr>name = ''curl'', cmdlines = [''curl example.com ''], first_seen = t_jan1,
             last_seen = t_jan1, days_seen = 1, remote_addresses = [''93.184.216.34'']\<rparr>"
    by (simp add: new_entry_def default_snitch_def curl_def join_args_def Let_def)
  from update_entry_idempotent[OF h] h show ?thesis by blast
qed

text \<open>
  Claim C10. When the process name is already in \<^verbatim>\<open>Names\<close>, creating the entry appends
  the name with the suffix \<^verbatim>\<open>" (different executable location)"\<close> to \<^verbatim>\<open>Names\<close>, and the
  \<^verbatim>\<open>name\<close> of the new Process Entry is the process name without the suffix.
\<close>

theorem new_entry_keeps_plain_name:
  assumes "proc_name p \<in> set (Names s)"
  shows "Names (new_entry str s p rip t) = Names s @ [proc_name p @ '' (different executable location)'']
       \<and> (\<exists>e. Processes (new_entry str s p rip t) (proc_exe p) = Some e \<and> name e = proc_name p)"
proof -
  have "count_list (Names s) (proc_name p) > 0"
    using assms count_list_0_iff[of "Names s" "proc_name p"] by auto
  then show ?thesis by (simp add: new_entry_def Let_def)
qed

theorem new_entry_keeps_plain_name_witness:
  "proc_name curl_snap \<in> set (Names (new_entry join_args default_snitch curl ''93.184.216.34'' t_jan1))
   \<and> Names (new_entry join_args (new_entry join_args default_snitch curl ''93.184.216.34'' t_jan1)
               curl_snap ''8.8.8.8'' t_jan2)
       = [''curl'', ''curl (different executable location)'']
   \<and> (\<exists>e. Processes (new_entry join_args (new_entry join_args default_snitch curl ''93.184.216.34'' t_jan1)
               curl_snap ''8.8.8.8'' t_jan2) ''/snap/bin/curl'' = Some e \<and> name e = ''curl'')"
proof -
  have h: "proc_name curl_snap \<in> set (Names (new_entry join_args default_snitch curl ''93.184.216.34'' t_jan1))"
    by (simp add: new_entry_def default_snitch_def curl_def curl_snap_def Let_def)
  have n: "Names (new_entry join_args default_snitch curl ''93.184.216.34'' t_jan1) = [''curl'']"
    by (simp add: new_entry_def default_snitch_def curl_def Let_def)
  from new_entry_keeps_plain_name[OF h, of join_args "''8.8.8.8''" t_jan2] h n
  show ?thesis by (simp add: curl_snap_def)
qed

section \<open>Lemmas on the poller\<close>

lemma attribute_Inr: "\<exists>s'. attribute str s p rip t = Inr s'"
proof (cases "Processes s (proc_exe p)")
  case None
  then show ?thesis by (simp add: attribute_def domIff)
next
  case (Some e)
  then have "attribute str s p rip t = update_entry str s p rip t"
    by (simp add: attribute_def domIff)
  then show ?thesis using update_entry_Some[OF Some, of str rip t] by auto
qed

lemma try_body_no_raddr: "raddr c = None \<Longrightarrow> try_body L W c st = (None, st)"
  by (simp add: try_body_def)

lemma try_body_private:
  "raddr c = Some ra \<Longrightarrow> is_private L (ip ra) = Some True \<Longrightarrow> try_body L W c st = (None, st)"
  by (simp add: try_body_def)

lemma try_body_bad_ip:
  "raddr c = Some ra \<Longrightarrow> is_private L (ip ra) = None \<Longrightarrow> try_body L W c st = (Some ValueError, st)"
  by (simp add: try_body_def)

lemma try_body_no_laddr:
  "raddr c = Some ra \<Longrightarrow> is_private L (ip ra) = Some False \<Longrightarrow> laddr c = None
   \<Longrightarrow> try_body L W c st = (Some AttributeError, st)"
  by (simp add: try_body_def)

lemma try_body_lookup_fails:
  "raddr c = Some ra \<Longrightarrow> is_private L (ip ra) = Some False \<Longrightarrow> laddr c = Some la
   \<Longrightarrow> as_dict W c = None
   \<Longrightarrow> try_body L W c st = (Some PsutilError, st\<lparr>st_pcap := dict_pop (port la) (st_pcap st)\<rparr>)"
  by (simp add: try_body_def)

lemma try_body_resolved:
  "raddr c = Some ra \<Longrightarrow> is_private L (ip ra) = Some False \<Longrightarrow> laddr c = Some la
   \<Longrightarrow> as_dict W c = Some p
   \<Longrightarrow> attribute (str_cmdline L) (st_snitch st) p (ip ra) (ctime_now W) = Inr s'
   \<Longrightarrow> try_body L W c st
       = (None, \<lparr>st_snitch = s', st_proc = Some p, st_pcap = dict_pop (port la) (st_pcap st)\<rparr>)"
  by (simp add: try_body_def)

lemma conn_cases [case_names silent bad_ip no_laddr lookup_fails resolved]:
  fixes L :: "'c pylib" and W :: "'c world"
  obtains "raddr c = None \<or> (\<exists>ra. raddr c = Some ra \<and> is_private L (ip ra) = Some True)"
  | ra where "raddr c = Some ra" "is_private L (ip ra) = None"
  | ra where "raddr c = Some ra" "is_private L (ip ra) = Some False" "laddr c = None"
  | ra la where "raddr c = Some ra" "is_private L (ip ra) = Some False" "laddr c = Some la"
      "as_dict W c = None"
  | ra la p where "raddr c = Some ra" "is_private L (ip ra) = Some False" "laddr c = Some la"
      "as_dict W c = Some p"
proof (cases "raddr c")
  case None
  then show ?thesis using that(1) by simp
next
  case ra: (Some ra)
  show ?thesis
  proof (cases "is_private L (ip ra)")
    case None
    then show ?thesis using that(2) ra by simp
  next
    case (Some b)
    show ?thesis
    proof (cases b)
      case True
      then show ?thesis using that(1) ra Some by simp
    next
      case False
      show ?thesis
      proof (cases "laddr c")
        case None
        then show ?thesis using that(3) ra Some False by simp
      next
        case la: (Some la)
        show ?thesis
        proof (cases "as_dict W c")
          case None
          then show ?thesis using that(4) ra Some False la by simp
        next
          case (Some p)
          then show ?thesis using that(5) ra \<open>is_private L (ip ra) = Some b\<close> False la by simp
        qed
      qed
    qed
  qed
qed

lemma poll_conn_silent:
  assumes "raddr c = None \<or> (\<exists>ra. raddr c = Some ra \<and> is_private L (ip ra) = Some True)"
  shows "poll_conn L W c st = st"
proof -
  have "try_body L W c st = (None, st)"
    using assms try_body_no_raddr try_body_private by blast
  then show ?thesis by (simp add: poll_conn_def)
qed

lemma poll_conn_bad_ip:
  assumes "raddr c = Some ra" "is_private L (ip ra) = None"
  shows "poll_conn L W c st = except_body L W c st"
  using try_body_bad_ip[OF assms] by (simp add: poll_conn_def)

lemma poll_conn_no_laddr:
  assumes "raddr c = Some ra" "is_private L (ip ra) = Some False" "laddr c = None"
  shows "poll_conn L W c st = except_body L W c st"
  using try_body_no_laddr[OF assms] by (simp add: poll_conn_def)

lemma poll_conn_lookup_fails:
  assumes "raddr c = Some ra" "is_private L (ip ra) = Some False" "laddr c = Some la" "as_dict W c = None"
  shows "poll_conn L W c st = except_body L W c (st\<lparr>st_pcap := dict_pop (port la) (st_pcap st)\<rparr>)"
  using try_body_lookup_fails[OF assms] by (simp add: poll_conn_def)

lemma poll_conn_resolved:
  assumes "raddr c = Some ra" "is_private L (ip ra) = Some False" "laddr c = Some la" "as_dict W c = Some p"
  shows "\<exists>s'. attribute (str_cmdline L) (st_snitch st) p (ip ra) (ctime_now W) = Inr s' \<and>
      poll_conn L W c st = \<lparr>st_snitch = s', st_proc = Some p, st_pcap = dict_pop (port la) (st_pcap st)\<rparr>"
proof -
  obtain s' where s': "attribute (str_cmdline L) (st_snitch st) p (ip ra) (ctime_now W) = Inr s'"
    using attribute_Inr by blast
  from try_body_resolved[OF assms s'] s' show ?thesis by (simp add: poll_conn_def)
qed

lemma except_body_snitch:
  "st_snitch (except_body L W c st)
      = (st_snitch st)\<lparr>Errors := Errors (st_snitch st) @ [ctime_now W @ '' '' @ str_conn L c @ pid_note c (st_proc st)]\<rparr>"
  by (simp add: except_body_def Let_def)

lemma except_body_proc: "st_proc (except_body L W c st) = st_proc st"
  by (simp add: except_body_def Let_def)

lemma except_body_pcap: "st_pcap (except_body L W c st) = st_pcap st"
  by (simp add: except_body_def Let_def)

lemma poll_loop_snitch_induct:
  assumes base: "P (st_snitch st)"
    and attr: "\<And>s p rip s'. P s \<Longrightarrow> attribute (str_cmdline L) s p rip (ctime_now W) = Inr s' \<Longrightarrow> P s'"
    and err: "\<And>s es. P s \<Longrightarrow> P (s\<lparr>Errors := Errors s @ es\<rparr>)"
  shows "P (st_snitch (poll_loop L W cs st))"
  using base
proof (induction cs arbitrary: st)
  case Nil
  then show ?case by simp
next
  case (Cons c cs)
  have "P (st_snitch (poll_conn L W c st))"
  proof (cases c rule: conn_cases[where L = L and W = W])
    case silent
    then show ?thesis using Cons.prems poll_conn_silent[of c L W st] by simp
  next
    case (bad_ip ra)
    then show ?thesis
      using Cons.prems poll_conn_bad_ip[of c ra L W st] except_body_snitch[of L W c st] err by auto
  next
    case (no_laddr ra)
    then show ?thesis
      using Cons.prems poll_conn_no_laddr[of c ra L W st] except_body_snitch[of L W c st] err by auto
  next
    case (lookup_fails ra la)
    then show ?thesis
      using Cons.prems poll_conn_lookup_fails[of c ra L la W st]
        except_body_snitch[of L W c "st\<lparr>st_pcap := dict_pop (port la) (st_pcap st)\<rparr>"] err by auto
  next
    case (resolved ra la p)
    then show ?thesis
      using Cons.prems poll_conn_resolved[of c ra L la W p st] attr by auto
  qed
  then show ?case using Cons.IH by simp
qed

lemma poll_snitch_induct:
  assumes base: "P s"
    and attr: "\<And>s p rip s'. P s \<Longrightarrow> attribute (str_cmdline L) s p rip (ctime_now W) = Inr s' \<Longrightarrow> P s'"
    and err: "\<And>s es. P s \<Longrightarrow> P (s\<lparr>Errors := Errors s @ es\<rparr>)"
  shows "P (fst (snd (poll L W s last_connections d)))"
proof -
  let ?st = "poll_loop L W (new_connections W last_connections) \<lparr>st_snitch = s, st_proc = None, st_pcap = d\<rparr>"
  have "P (st_snitch ?st)"
    by (rule poll_loop_snitch_induct[where P = P, OF _ attr err]) (simp_all add: base)
  then have "P ((st_snitch ?st)\<lparr>Errors := Errors (st_snitch ?st) @ missed_errors (ctime_now W) (st_pcap ?st)\<rparr>)"
    by (rule err)
  then show ?thesis by (simp add: poll_def Let_def)
qed


section \<open>Lemmas on the growth of the state\<close>

lemma update_entry_effect:
  assumes "Processes s (proc_exe p) = Some e"
  shows "\<exists>e'. update_entry str s p rip t = Inr (s\<lparr>Processes := (Processes s)(proc_exe p \<mapsto> e')\<rparr>) \<and>
     last_seen e' = t \<and> first_seen e' = first_seen e \<and>
     (\<exists>x. name e' = name e @ x) \<and> str_contains (name e') (proc_name p) \<and>
     set (cmdlines e) \<subseteq> set (cmdlines e') \<and> str (proc_cmdline p) \<in> set (cmdlines e') \<and>
     remote_addresses e' = (if rip \<in> set (remote_addresses e) then remote_addresses e
                            else remote_addresses e @ [rip]) \<and>
     days_seen e' = (if take 3 (str_split t) \<noteq> take 3 (str_split (last_seen e))
                     then days_seen e + 1 else days_seen e)"
proof -
  define e' where "e' = \<lparr>name = (if \<not> str_contains (name e) (proc_name p)
                                   then name e @ '' alternative='' @ proc_name p else name e),
      cmdlines = (if str (proc_cmdline p) \<notin> set (cmdlines e)
                  then cmdlines e @ [str (proc_cmdline p)] else cmdlines e),
      first_seen = first_seen e,
      last_seen = t,
      days_seen = (if take 3 (str_split t) \<noteq> take 3 (str_split (last_seen e))
                   then days_seen e + 1 else days_seen e),
      remote_addresses = (if rip \<in> set (remote_addresses e) then remote_addresses e
                          else remote_addresses e @ [rip])\<rparr>"
  have upd: "update_entry str s p rip t = Inr (s\<lparr>Processes := (Processes s)(proc_exe p \<mapsto> e')\<rparr>)"
    using assms by (cases e) (simp add: update_entry_def Let_def e'_def)
  have nm: "str_contains (name e') (proc_name p)"
    using str_contains_suffix[of "name e @ '' alternative=''" "proc_name p"] by (simp add: e'_def)
  have ex: "\<exists>x. name e' = name e @ x" by (simp add: e'_def)
  have rest: "last_seen e' = t" "first_seen e' = first_seen e"
     "set (cmdlines e) \<subseteq> set (cmdlines e')" "str (proc_cmdline p) \<in> set (cmdlines e')"
     "remote_addresses e' = (if rip \<in> set (remote_addresses e) then remote_addresses e
                            else remote_addresses e @ [rip])"
     "days_seen e' = (if take 3 (str_split t) \<noteq> take 3 (str_split (last_seen e))
                     then days_seen e + 1 else days_seen e)"
    by (auto simp: e'_def)
  from upd nm ex rest show ?thesis by blast
qed

lemma new_entry_Names:
  "Names (new_entry str s p rip t)
     = Names s @ [if proc_name p \<in> set (Names s)
                  then proc_name p @ '' (different executable location)'' else proc_name p]"
proof (cases "proc_name p \<in> set (Names s)")
  case True
  then have "count_list (Names s) (proc_name p) > 0"
    using count_list_0_iff[of "Names s" "proc_name p"] by auto
  then show ?thesis using True by (simp add: new_entry_def Let_def)
next
  case False
  then show ?thesis by (simp add: new_entry_def Let_def)
qed

lemma new_entry_Processes:
  "Processes (new_entry str s p rip t)
     = (Processes s)(proc_exe p \<mapsto> \<lparr>name = proc_name p, cmdlines = [str (proc_cmdline p)],
          first_seen = t, last_seen = t, days_seen = 1, remote_addresses = [rip]\<rparr>)"
  by (simp add: new_entry_def Let_def)

lemma new_entry_Errors: "Errors (new_entry str s p rip t) = Errors s"
  by (simp add: new_entry_def Let_def)

lemma attribute_cases:
  assumes "attribute str s p rip t = Inr s'"
  obtains (created) "Processes s (proc_exe p) = None" "s' = new_entry str s p rip t"
  | (updated) e e' where "Processes s (proc_exe p) = Some e"
      "s' = s\<lparr>Processes := (Processes s)(proc_exe p \<mapsto> e')\<rparr>"
      "last_seen e' = t" "first_seen e' = first_seen e"
      "\<exists>x. name e' = name e @ x" "str_contains (name e') (proc_name p)"
      "set (cmdlines e) \<subseteq> set (cmdlines e')" "str (proc_cmdline p) \<in> set (cmdlines e')"
      "remote_addresses e' = (if rip \<in> set (remote_addresses e) then remote_addresses e
                            else remote_addresses e @ [rip])"
      "days_seen e' = (if take 3 (str_split t) \<noteq> take 3 (str_split (last_seen e))
                     then days_seen e + 1 else days_seen e)"
proof (cases "Processes s (proc_exe p)")
  case None
  then have "s' = new_entry str s p rip t" using assms by (simp add: attribute_def domIff)
  then show ?thesis using created None by blast
next
  case (Some e)
  then have a: "attribute str s p rip t = update_entry str s p rip t"
    by (simp add: attribute_def domIff)
  from update_entry_effect[OF Some, of str rip t] a assms
  show ?thesis using updated[OF Some] by auto
qed




lemma attribute_Names:
  assumes "attribute str s p rip t = Inr s'"
  shows "\<exists>ns. Names s' = Names s @ ns"
  using assms by (cases rule: attribute_cases) (auto simp: new_entry_Names)

lemma evolves_Names:
  assumes "evolves L s s'"
  shows "\<exists>ns. Names s' = Names s @ ns"
  using assms
proof (induction rule: evolves.induct)
  case evolves_refl
  then show ?case by simp
next
  case (evolves_poll s' W last_connections pcap_dict)
  show ?case
  proof (rule poll_snitch_induct[where P = "\<lambda>u. \<exists>ns. Names u = Names s @ ns"])
    show "\<exists>ns. Names s' = Names s @ ns" by (rule evolves_poll.IH)
  next
    fix u :: snitch and p :: "'a proc" and rip u'
    assume "\<exists>ns. Names u = Names s @ ns" "attribute (str_cmdline L) u p rip (ctime_now W) = Inr u'"
    then show "\<exists>ns. Names u' = Names s @ ns" using attribute_Names[of "str_cmdline L" u p rip "ctime_now W" u'] by auto
  next
    fix u :: snitch and es
    assume "\<exists>ns. Names u = Names s @ ns"
    then show "\<exists>ns. Names (u\<lparr>Errors := Errors u @ es\<rparr>) = Names s @ ns" by simp
  qed
qed


section \<open>Claims on the poller\<close>

lemma split_jan1: "take 3 (str_split ''Mon Jan  1 00:00:00 2024'') = [''Mon'', ''Jan'', ''1'']"
  by (simp add: str_split_def isspace_def)

lemma split_jan2: "take 3 (str_split ''Tue Jan  2 00:00:00 2024'') = [''Tue'', ''Jan'', ''2'']"
  by (simp add: str_split_def isspace_def)

lemma poll_loop_single: "poll_loop L W [c] st = poll_conn L W c st"
  by simp

lemma poll_single_resolved:
  assumes "new_connections W last_connections = [c]"
    and "raddr c = Some ra" "is_private L (ip ra) = Some False" "laddr c = Some la"
    and "as_dict W c = Some p"
  shows "\<exists>s'. attribute (str_cmdline L) s p (ip ra) (ctime_now W) = Inr s' \<and>
          Processes (fst (snd (poll L W s last_connections d))) = Processes s' \<and>
          fst (poll L W s last_connections d) = current_connections W"
proof -
  let ?st = "\<lparr>st_snitch = s, st_proc = None, st_pcap = d\<rparr>"
  obtain s' where s': "attribute (str_cmdline L) s p (ip ra) (ctime_now W) = Inr s'"
     "poll_conn L W c ?st = \<lparr>st_snitch = s', st_proc = Some p, st_pcap = dict_pop (port la) d\<rparr>"
    using poll_conn_resolved[OF assms(2-5), of ?st] by auto
  then show ?thesis using assms(1) by (simp add: poll_def Let_def)
qed

text \<open>
  Claim C1. End to end, through \<^verbatim>\<open>poll\<close>: from the default state, a tick whose only new
  connection goes to the public address 93.184.216.34 and is resolved to the process
  \<^verbatim>\<open>curl\<close> at \<^verbatim>\<open>/usr/bin/curl\<close>, at \<^verbatim>\<open>Mon Jan  1 00:00:00 2024\<close>, creates the entry of
  \<^verbatim>\<open>/usr/bin/curl\<close> with first and last seen at that time, one day seen, the one command
  line (as \<^verbatim>\<open>str\<close> renders it) and the one remote address. A second tick whose only new
  connection goes to 8.8.8.8 from the same executable, at \<^verbatim>\<open>Tue Jan  2 00:00:00 2024\<close>,
  leaves that entry with two days seen, both addresses in order, last seen at the second
  time and first seen unchanged.
\<close>

theorem curl_scenario:
  assumes "is_private L ''93.184.216.34'' = Some False" "is_private L ''8.8.8.8'' = Some False"
    and "new_connections W1 [] = [c1]" "ctime_now W1 = ''Mon Jan  1 00:00:00 2024''"
    and "raddr c1 = Some \<lparr>ip = ''93.184.216.34'', port = rp1\<rparr>" "laddr c1 = Some la1"
    and "as_dict W1 c1 = Some p1" "proc_exe p1 = ''/usr/bin/curl''" "proc_name p1 = ''curl''"
    and "new_connections W2 (current_connections W1) = [c2]"
    and "ctime_now W2 = ''Tue Jan  2 00:00:00 2024''"
    and "raddr c2 = Some \<lparr>ip = ''8.8.8.8'', port = rp2\<rparr>" "laddr c2 = Some la2"
    and "as_dict W2 c2 = Some p2" "proc_exe p2 = ''/usr/bin/curl''"
    and "poll L W1 default_snitch [] d1 = (conns1, s1, d1')"
    and "poll L W2 s1 conns1 d2 = (conns2, s2, d2')"
  shows "Processes s1 ''/usr/bin/curl''
           = Some \<lparr>name = ''curl'', cmdlines = [str_cmdline L (proc_cmdline p1)],
                   first_seen = ''Mon Jan  1 00:00:00 2024'',
                   last_seen = ''Mon Jan  1 00:00:00 2024'',
                   days_seen = 1, remote_addresses = [''93.184.216.34'']\<rparr>
       \<and> (\<exists>e2. Processes s2 ''/usr/bin/curl'' = Some e2 \<and> days_seen e2 = 2 \<and>
                 remote_addresses e2 = [''93.184.216.34'', ''8.8.8.8''] \<and>
                 last_seen e2 = ''Tue Jan  2 00:00:00 2024'' \<and>
                 first_seen e2 = ''Mon Jan  1 00:00:00 2024'')"
proof -
  let ?e1 = "\<lparr>name = ''curl'', cmdlines = [str_cmdline L (proc_cmdline p1)],
                   first_seen = ''Mon Jan  1 00:00:00 2024'',
                   last_seen = ''Mon Jan  1 00:00:00 2024'',
                   days_seen = 1, remote_addresses = [''93.184.216.34'']\<rparr>"
  have ip1: "is_private L (ip \<lparr>ip = ''93.184.216.34'', port = rp1\<rparr>) = Some False"
    using assms(1) by simp
  have ip2: "is_private L (ip \<lparr>ip = ''8.8.8.8'', port = rp2\<rparr>) = Some False"
    using assms(2) by simp
  obtain u1 where u1: "attribute (str_cmdline L) default_snitch p1 ''93.184.216.34'' (ctime_now W1) = Inr u1"
      "Processes (fst (snd (poll L W1 default_snitch [] d1))) = Processes u1"
      "fst (poll L W1 default_snitch [] d1) = current_connections W1"
    using poll_single_resolved[OF assms(3) assms(5) ip1 assms(6) assms(7), of default_snitch d1]
    by auto
  have "u1 = new_entry (str_cmdline L) default_snitch p1 ''93.184.216.34'' (ctime_now W1)"
    using u1(1) by (simp add: attribute_def default_snitch_def)
  then have "Processes u1 ''/usr/bin/curl'' = Some ?e1"
    using assms(4,8,9) by (simp add: new_entry_Processes)
  then have first: "Processes s1 ''/usr/bin/curl'' = Some ?e1"
    using u1(2) assms(16) by simp
  have conns1: "conns1 = current_connections W1" using u1(3) assms(16) by simp
  obtain u2 where u2: "attribute (str_cmdline L) s1 p2 ''8.8.8.8'' (ctime_now W2) = Inr u2"
      "Processes (fst (snd (poll L W2 s1 conns1 d2))) = Processes u2"
    using poll_single_resolved[OF assms(10)[folded conns1] assms(12) ip2 assms(13) assms(14), of s1 d2]
    by auto
  have ex2: "Processes s1 (proc_exe p2) = Some ?e1" using first assms(15) by simp
  from u2(1) have "\<exists>e2. Processes u2 ''/usr/bin/curl'' = Some e2 \<and> days_seen e2 = 2 \<and>
                 remote_addresses e2 = [''93.184.216.34'', ''8.8.8.8''] \<and>
                 last_seen e2 = ''Tue Jan  2 00:00:00 2024'' \<and>
                 first_seen e2 = ''Mon Jan  1 00:00:00 2024''"
  proof (cases rule: attribute_cases)
    case created
    then show ?thesis using ex2 by simp
  next
    case (updated e e')
    then have "e = ?e1" using ex2 by simp
    then show ?thesis using updated assms(11,15) split_jan1 split_jan2 by simp
  qed
  then show ?thesis using first u2(2) assms(17) by simp
qed


lemma conns_distinct: "conn1 \<noteq> conn2" "conn2 \<noteq> conn3" "conn1 \<noteq> conn3"
  "conn_local \<noteq> conn1" "conn_local \<noteq> conn2" "conn_local \<noteq> conn3"
  by (simp_all add: conn1_def conn2_def conn3_def conn_local_def)

lemma new_world1: "new_connections world1 [] = [conn1]"
  by (simp add: new_connections_def current_connections_def world1_def)

lemma current_world1: "current_connections world1 = [conn1]"
  by (simp add: current_connections_def world1_def)

lemma new_world2: "new_connections world2 [conn1] = [conn2]"
  using conns_distinct by (simp add: new_connections_def current_connections_def world2_def)


theorem curl_scenario_witness:
  "is_private lib0 ''93.184.216.34'' = Some False \<and> is_private lib0 ''8.8.8.8'' = Some False \<and>
   new_connections world1 [] = [conn1] \<and> ctime_now world1 = ''Mon Jan  1 00:00:00 2024'' \<and>
   raddr conn1 = Some \<lparr>ip = ''93.184.216.34'', port = 443\<rparr> \<and>
   laddr conn1 = Some \<lparr>ip = ''192.168.1.5'', port = 50000\<rparr> \<and>
   as_dict world1 conn1 = Some curl \<and> proc_exe curl = ''/usr/bin/curl'' \<and> proc_name curl = ''curl'' \<and>
   new_connections world2 (current_connections world1) = [conn2] \<and>
   ctime_now world2 = ''Tue Jan  2 00:00:00 2024'' \<and>
   raddr conn2 = Some \<lparr>ip = ''8.8.8.8'', port = 443\<rparr> \<and>
   laddr conn2 = Some \<lparr>ip = ''192.168.1.5'', port = 50001\<rparr> \<and>
   as_dict world2 conn2 = Some curl \<and>
   Processes state1 ''/usr/bin/curl''
     = Some \<lparr>name = ''curl'', cmdlines = [''curl example.com ''],
             first_seen = ''Mon Jan  1 00:00:00 2024'', last_seen = ''Mon Jan  1 00:00:00 2024'',
             days_seen = 1, remote_addresses = [''93.184.216.34'']\<rparr> \<and>
   (\<exists>e2. Processes state2 ''/usr/bin/curl'' = Some e2 \<and> days_seen e2 = 2 \<and>
         remote_addresses e2 = [''93.184.216.34'', ''8.8.8.8''] \<and>
         last_seen e2 = ''Tue Jan  2 00:00:00 2024'' \<and>
         first_seen e2 = ''Mon Jan  1 00:00:00 2024'')"
proof -
  have h1: "is_private lib0 ''93.184.216.34'' = Some False" by (simp add: lib0_def)
  have h2: "is_private lib0 ''8.8.8.8'' = Some False" by (simp add: lib0_def)
  have h3: "new_connections world1 [] = [conn1]" by (rule new_world1)
  have h4: "ctime_now world1 = ''Mon Jan  1 00:00:00 2024''" by (simp add: world1_def t_jan1_def)
  have h5: "raddr conn1 = Some \<lparr>ip = ''93.184.216.34'', port = 443\<rparr>" by (simp add: conn1_def)
  have h6: "laddr conn1 = Some \<lparr>ip = ''192.168.1.5'', port = 50000\<rparr>" by (simp add: conn1_def)
  have h7: "as_dict world1 conn1 = Some curl" by (simp add: world1_def)
  have h8: "proc_exe curl = ''/usr/bin/curl''" by (simp add: curl_def)
  have h9: "proc_name curl = ''curl''" by (simp add: curl_def)
  have h10: "new_connections world2 (current_connections world1) = [conn2]"
    using new_world2 current_world1 by simp
  have h11: "ctime_now world2 = ''Tue Jan  2 00:00:00 2024''" by (simp add: world2_def t_jan2_def)
  have h12: "raddr conn2 = Some \<lparr>ip = ''8.8.8.8'', port = 443\<rparr>" by (simp add: conn2_def)
  have h13: "laddr conn2 = Some \<lparr>ip = ''192.168.1.5'', port = 50001\<rparr>" by (simp add: conn2_def)
  have h14: "as_dict world2 conn2 = Some curl" by (simp add: world2_def)
  have h16: "poll lib0 world1 default_snitch [] []
      = (snapshot1, state1, snd (snd (poll lib0 world1 default_snitch [] [])))"
    by (simp add: snapshot1_def state1_def)
  have h17: "poll lib0 world2 state1 snapshot1 []
      = (fst (poll lib0 world2 state1 snapshot1 []), state2, snd (snd (poll lib0 world2 state1 snapshot1 [])))"
    by (simp add: state2_def)
  have c: "str_cmdline lib0 (proc_cmdline curl) = ''curl example.com ''"
    by (simp add: lib0_def curl_def join_args_def)
  from curl_scenario[OF h1 h2 h3 h4 h5 h6 h7 h8 h9 h10 h11 h12 h13 h14 h8 h16 h17]
  show ?thesis using h1 h2 h3 h4 h5 h6 h7 h8 h9 h10 h11 h12 h13 h14 c by simp
qed





text \<open>
  Claim C5. Two creations that report the same process name \<open>X\<close>, where \<open>X\<close> was not in
  \<^verbatim>\<open>Names\<close> before the first: whatever the program does between them, after the second
  creation the slot of \<^verbatim>\<open>Names\<close> appended by the first still holds \<open>X\<close>, and the slot
  appended by the second holds \<open>X\<close> followed by \<^verbatim>\<open>" (different executable location)"\<close>.
  A creation is a call of \<^verbatim>\<open>new_entry\<close>, which \<^verbatim>\<open>poll\<close> makes only for an executable path
  that is not yet a key of \<^verbatim>\<open>Processes\<close>; the statement does not need the two paths to
  differ.
\<close>

theorem name_collision_disambiguated:
  assumes "X \<notin> set (Names s0)" "proc_name p1 = X" "proc_name p2 = X"
    and "evolves L (new_entry (str_cmdline L) s0 p1 rip1 t1) s2"
  shows "Names (new_entry (str_cmdline L) s2 p2 rip2 t2) ! length (Names s0) = X
       \<and> Names (new_entry (str_cmdline L) s2 p2 rip2 t2) ! length (Names s2)
           = X @ '' (different executable location)''
       \<and> length (Names s0) < length (Names s2)
       \<and> length (Names (new_entry (str_cmdline L) s2 p2 rip2 t2)) = Suc (length (Names s2))"
proof -
  have n1: "Names (new_entry (str_cmdline L) s0 p1 rip1 t1) = Names s0 @ [X]"
    using assms(1,2) by (simp add: new_entry_Names)
  obtain ns where ns: "Names s2 = (Names s0 @ [X]) @ ns"
    using evolves_Names[OF assms(4)] n1 by auto
  then have "X \<in> set (Names s2)" by simp
  then have n3: "Names (new_entry (str_cmdline L) s2 p2 rip2 t2)
       = Names s2 @ [X @ '' (different executable location)'']"
    using assms(3) by (simp add: new_entry_Names)
  have a: "Names (new_entry (str_cmdline L) s2 p2 rip2 t2) ! length (Names s0) = X"
    unfolding n3 ns by (simp add: nth_append)
  have b: "Names (new_entry (str_cmdline L) s2 p2 rip2 t2) ! length (Names s2)
           = X @ '' (different executable location)''"
    unfolding n3 by simp
  have c: "length (Names s0) < length (Names s2)" using ns by simp
  have d: "length (Names (new_entry (str_cmdline L) s2 p2 rip2 t2)) = Suc (length (Names s2))"
    unfolding n3 by simp
  from a b c d show ?thesis by blast
qed

theorem name_collision_disambiguated_witness:
  "''curl'' \<notin> set (Names default_snitch) \<and> proc_name curl = ''curl'' \<and> proc_name curl_snap = ''curl'' \<and>
   proc_exe curl \<noteq> proc_exe curl_snap \<and>
   evolves lib0 (new_entry (str_cmdline lib0) default_snitch curl ''93.184.216.34'' t_jan1)
     (fst (snd (poll lib0 world2 (new_entry (str_cmdline lib0) default_snitch curl ''93.184.216.34'' t_jan1)
                  [conn1] []))) \<and>
   Names (new_entry (str_cmdline lib0)
           (fst (snd (poll lib0 world2 (new_entry (str_cmdline lib0) default_snitch curl ''93.184.216.34'' t_jan1)
                  [conn1] []))) curl_snap ''1.1.1.1'' t_jan2) ! 0 = ''curl'' \<and>
   Names (new_entry (str_cmdline lib0)
           (fst (snd (poll lib0 world2 (new_entry (str_cmdline lib0) default_snitch curl ''93.184.216.34'' t_jan1)
                  [conn1] []))) curl_snap ''1.1.1.1'' t_jan2)
     ! length (Names (fst (snd (poll lib0 world2 (new_entry (str_cmdline lib0) default_snitch curl ''93.184.216.34'' t_jan1)
                  [conn1] []))))
     = ''curl (different executable location)''"
proof -
  let ?s1 = "new_entry (str_cmdline lib0) default_snitch curl ''93.184.216.34'' t_jan1"
  let ?s2 = "fst (snd (poll lib0 world2 ?s1 [conn1] []))"
  have h1: "''curl'' \<notin> set (Names default_snitch)" by (simp add: default_snitch_def)
  have h2: "proc_name curl = ''curl''" by (simp add: curl_def)
  have h3: "proc_name curl_snap = ''curl''" by (simp add: curl_snap_def)
  have h4: "evolves lib0 ?s1 ?s2" by (rule evolves_poll) (rule evolves_refl)
  have h5: "proc_exe curl \<noteq> proc_exe curl_snap" by (simp add: curl_def curl_snap_def)
  have z: "length (Names default_snitch) = 0" by (simp add: default_snitch_def)
  from name_collision_disambiguated[OF h1 h2 h3 h4, of "''1.1.1.1''" t_jan2] h1 h2 h3 h4 h5 z
  show ?thesis by simp
qed

lemma attribute_dom:
  assumes "attribute str s p rip t = Inr s'"
  shows "dom (Processes s') = insert (proc_exe p) (dom (Processes s))"
  using assms by (cases rule: attribute_cases) (auto simp: new_entry_Processes)

lemma attribute_Errors:
  assumes "attribute str s p rip t = Inr s'"
  shows "Errors s' = Errors s"
  using assms by (cases rule: attribute_cases) (auto simp: new_entry_Errors)

lemma poll_conn_dom:
  "dom (Processes (st_snitch (poll_conn L W c st)))
     = dom (Processes (st_snitch st)) \<union> (case resolved L W c of None \<Rightarrow> {} | Some p \<Rightarrow> {proc_exe p})"
proof (cases c rule: conn_cases[where L = L and W = W])
  case silent
  then have "resolved L W c = None" by (auto simp: resolved_def public_conn_def)
  then show ?thesis using poll_conn_silent[OF silent, of W st] by simp
next
  case (bad_ip ra)
  then have "resolved L W c = None" by (simp add: resolved_def public_conn_def)
  then show ?thesis
    using poll_conn_bad_ip[OF bad_ip, of W st] by (simp add: except_body_snitch)
next
  case (no_laddr ra)
  then have "resolved L W c = None" by (simp add: resolved_def public_conn_def)
  then show ?thesis
    using poll_conn_no_laddr[OF no_laddr, of W st] by (simp add: except_body_snitch)
next
  case (lookup_fails ra la)
  then have "resolved L W c = None" by (simp add: resolved_def public_conn_def)
  then show ?thesis
    using poll_conn_lookup_fails[OF lookup_fails, of st] by (simp add: except_body_snitch)
next
  case (resolved ra la p)
  then have r: "resolved L W c = Some p" by (simp add: resolved_def public_conn_def)
  obtain s' where s': "attribute (str_cmdline L) (st_snitch st) p (ip ra) (ctime_now W) = Inr s'"
     "poll_conn L W c st = \<lparr>st_snitch = s', st_proc = Some p, st_pcap = dict_pop (port la) (st_pcap st)\<rparr>"
    using poll_conn_resolved[OF resolved, of st] by auto
  show ?thesis using attribute_dom[OF s'(1)] s'(2) r by auto
qed

lemma poll_loop_dom:
  "dom (Processes (st_snitch (poll_loop L W cs st)))
     = dom (Processes (st_snitch st))
       \<union> set (List.map_filter (\<lambda>c. map_option proc_exe (resolved L W c)) cs)"
proof (induction cs arbitrary: st)
  case Nil
  then show ?case by simp
next
  case (Cons c cs)
  show ?case
    by (cases "resolved L W c") (auto simp: Cons.IH poll_conn_dom)
qed

lemma poll_dom:
  "dom (Processes (fst (snd (poll L W s last_connections d))))
     = dom (Processes s) \<union> set (resolved_exes L W last_connections)"
  by (simp add: poll_def Let_def poll_loop_dom resolved_exes_def)

lemma poll_fst: "fst (poll L W s last_connections d) = current_connections W"
  by (simp add: poll_def Let_def)

lemma run_polls_dom:
  "dom (Processes (run_polls L ws s last_connections))
     = dom (Processes s) \<union> set (observed_exes L ws last_connections)"
proof (induction ws arbitrary: s last_connections)
  case Nil
  then show ?case by simp
next
  case (Cons Wd ws)
  obtain conns s' d' where pl: "poll L (fst Wd) s last_connections (snd Wd) = (conns, s', d')"
    by (cases "poll L (fst Wd) s last_connections (snd Wd)") auto
  have c: "conns = current_connections (fst Wd)" using poll_fst[of L "fst Wd" s last_connections "snd Wd"] pl by simp
  have d: "dom (Processes s') = dom (Processes s) \<union> set (resolved_exes L (fst Wd) last_connections)"
    using poll_dom[of L "fst Wd" s last_connections "snd Wd"] pl by simp
  show ?case using pl c d by (auto simp: Cons.IH)
qed

lemma poll_conn_not_public:
  assumes "\<not> public_conn L c"
  shows "Processes (st_snitch (poll_conn L W c st)) = Processes (st_snitch st)"
proof (cases c rule: conn_cases[where L = L and W = W])
  case silent
  then show ?thesis using poll_conn_silent[OF silent, of W st] by simp
next
  case (bad_ip ra)
  then show ?thesis using poll_conn_bad_ip[OF bad_ip, of W st] by (simp add: except_body_snitch)
next
  case (no_laddr ra)
  then show ?thesis using assms by (simp add: public_conn_def)
next
  case (lookup_fails ra la)
  then show ?thesis using assms by (simp add: public_conn_def)
next
  case (resolved ra la p)
  then show ?thesis using assms by (simp add: public_conn_def)
qed

text \<open>
  Claim C9. After any run of poll ticks from the default state and the empty snapshot, an
  executable path is a key of \<^verbatim>\<open>Processes\<close> exactly when, at some tick, a new connection
  with a public remote address was resolved to a process with that path. And a connection
  that is not public (no remote address, a private or loopback one, or one that
  \<^verbatim>\<open>ipaddress\<close> rejects) leaves \<^verbatim>\<open>Processes\<close> as it was: no entry is created or updated.
\<close>

theorem entry_exists_iff_observed:
  "(x \<in> dom (Processes (run_polls L ws default_snitch [])) \<longleftrightarrow> x \<in> set (observed_exes L ws []))
   \<and> (\<not> public_conn L c \<longrightarrow>
        Processes (st_snitch (poll_conn L W c st)) = Processes (st_snitch st))"
proof -
  have "dom (Processes default_snitch) = {}" by (simp add: default_snitch_def)
  then have "dom (Processes (run_polls L ws default_snitch [])) = set (observed_exes L ws [])"
    using run_polls_dom[of L ws default_snitch "[]"] by simp
  then show ?thesis using poll_conn_not_public by blast
qed


lemma resolved_world1: "resolved lib0 world1 conn1 = Some curl"
  by (simp add: resolved_def public_conn_def lib0_def conn1_def world1_def)

lemma observed_world1: "observed_exes lib0 [(world1, [])] [] = [''/usr/bin/curl'']"
  by (simp add: resolved_exes_def new_world1 resolved_world1 List.map_filter_simps curl_def)

lemma conn_local_not_public: "\<not> public_conn lib0 conn_local"
  by (simp add: public_conn_def lib0_def conn_local_def)

theorem entry_exists_iff_observed_witness:
  "''/usr/bin/curl'' \<in> set (observed_exes lib0 [(world1, [])] []) \<and>
   ''/usr/bin/curl'' \<in> dom (Processes (run_polls lib0 [(world1, [])] default_snitch [])) \<and>
   ''/snap/bin/curl'' \<notin> set (observed_exes lib0 [(world1, [])] []) \<and>
   ''/snap/bin/curl'' \<notin> dom (Processes (run_polls lib0 [(world1, [])] default_snitch [])) \<and>
   \<not> public_conn lib0 conn_local \<and>
   Processes (st_snitch (poll_conn lib0 world3 conn_local
                \<lparr>st_snitch = state1, st_proc = None, st_pcap = []\<rparr>)) = Processes state1"
proof -
  have a: "''/usr/bin/curl'' \<in> set (observed_exes lib0 [(world1, [])] [])"
    by (subst observed_world1) simp
  have b: "''/snap/bin/curl'' \<notin> set (observed_exes lib0 [(world1, [])] [])"
    by (subst observed_world1) simp
  from entry_exists_iff_observed[of "''/usr/bin/curl''" lib0 "[(world1, [])]" conn_local world3
        "\<lparr>st_snitch = state1, st_proc = None, st_pcap = []\<rparr>"]
       entry_exists_iff_observed[of "''/snap/bin/curl''" lib0 "[(world1, [])]" conn_local world3
        "\<lparr>st_snitch = state1, st_proc = None, st_pcap = []\<rparr>"]
       a b conn_local_not_public
  show ?thesis by simp
qed

lemma poll_loop_Errors_prefix:
  "\<exists>es. Errors (st_snitch (poll_loop L W cs st)) = Errors (st_snitch st) @ es"
proof (rule poll_loop_snitch_induct[where P = "\<lambda>u. \<exists>es. Errors u = Errors (st_snitch st) @ es"])
  show "\<exists>es. Errors (st_snitch st) = Errors (st_snitch st) @ es" by simp
next
  fix u :: snitch and p :: "'a proc" and rip u'
  assume "\<exists>es. Errors u = Errors (st_snitch st) @ es"
    "attribute (str_cmdline L) u p rip (ctime_now W) = Inr u'"
  then show "\<exists>es. Errors u' = Errors (st_snitch st) @ es"
    using attribute_Errors[of "str_cmdline L" u p rip "ctime_now W" u'] by simp
next
  fix u :: snitch and es
  assume "\<exists>es. Errors u = Errors (st_snitch st) @ es"
  then show "\<exists>es'. Errors (u\<lparr>Errors := Errors u @ es\<rparr>) = Errors (st_snitch st) @ es'" by auto
qed

lemma poll_conn_Errors_prefix:
  "\<exists>es. Errors (st_snitch (poll_conn L W c st)) = Errors (st_snitch st) @ es"
  using poll_loop_Errors_prefix[of L W "[c]" st] by simp

lemma poll_conn_failure_logged:
  assumes "public_conn L c" "laddr c \<noteq> None" "as_dict W c = None"
  shows "\<exists>tail. Errors (st_snitch (poll_conn L W c st))
           = Errors (st_snitch st) @ [ctime_now W @ '' '' @ str_conn L c @ tail]"
proof -
  obtain ra where ra: "raddr c = Some ra" "is_private L (ip ra) = Some False"
    using assms(1) by (auto simp: public_conn_def split: option.splits)
  obtain la where la: "laddr c = Some la" using assms(2) by auto
  show ?thesis
    using poll_conn_lookup_fails[OF ra la assms(3), of st] by (simp add: except_body_snitch)
qed

lemma poll_loop_failure_logged:
  assumes "c \<in> set cs" "public_conn L c" "laddr c \<noteq> None" "as_dict W c = None"
  shows "\<exists>pre tail post. Errors (st_snitch (poll_loop L W cs st))
           = Errors (st_snitch st) @ pre @ [ctime_now W @ '' '' @ str_conn L c @ tail] @ post"
  using assms(1)
proof (induction cs arbitrary: st)
  case Nil
  then show ?case by simp
next
  case (Cons c0 cs)
  show ?case
  proof (cases "c0 = c")
    case True
    obtain tail where t: "Errors (st_snitch (poll_conn L W c st))
           = Errors (st_snitch st) @ [ctime_now W @ '' '' @ str_conn L c @ tail]"
      using poll_conn_failure_logged[OF assms(2-4), of st] by blast
    obtain post where p: "Errors (st_snitch (poll_loop L W cs (poll_conn L W c st)))
           = Errors (st_snitch (poll_conn L W c st)) @ post"
      using poll_loop_Errors_prefix[of L W cs "poll_conn L W c st"] by blast
    have "Errors (st_snitch (poll_loop L W (c0 # cs) st))
           = Errors (st_snitch st) @ [] @ [ctime_now W @ '' '' @ str_conn L c @ tail] @ post"
      using True t p by simp
    then show ?thesis by blast
  next
    case False
    then have "c \<in> set cs" using Cons.prems by simp
    then obtain pre tail post where i: "Errors (st_snitch (poll_loop L W cs (poll_conn L W c0 st)))
           = Errors (st_snitch (poll_conn L W c0 st)) @ pre @ [ctime_now W @ '' '' @ str_conn L c @ tail] @ post"
      using Cons.IH[of "poll_conn L W c0 st"] by blast
    obtain es where e: "Errors (st_snitch (poll_conn L W c0 st)) = Errors (st_snitch st) @ es"
      using poll_conn_Errors_prefix[of L W c0 st] by blast
    have "Errors (st_snitch (poll_loop L W (c0 # cs) st))
           = Errors (st_snitch st) @ (es @ pre) @ [ctime_now W @ '' '' @ str_conn L c @ tail] @ post"
      using i e by simp
    then show ?thesis by blast
  qed
qed

lemma attribute_records:
  assumes "attribute str s p rip t = Inr s'"
  shows "recorded s' (proc_exe p) rip t"
  using assms by (cases rule: attribute_cases) (auto simp: recorded_def new_entry_Processes)

lemma attribute_keeps_recorded:
  assumes "recorded s x rip t" "attribute str s p rip' t = Inr s'"
  shows "recorded s' x rip t"
  using assms(2)
proof (cases rule: attribute_cases)
  case created
  then show ?thesis using assms(1)
    by (auto simp: recorded_def new_entry_Processes split: option.splits)
next
  case (updated e e')
  show ?thesis
  proof (cases "x = proc_exe p")
    case True
    then have "rip \<in> set (remote_addresses e)" using assms(1) updated(1) by (simp add: recorded_def)
    then have "rip \<in> set (remote_addresses e')" using updated(9) by (simp split: if_splits)
    then show ?thesis using True updated(2,3) by (simp add: recorded_def)
  next
    case False
    then show ?thesis using assms(1) updated(2) by (simp add: recorded_def)
  qed
qed

lemma poll_loop_keeps_recorded:
  assumes "recorded (st_snitch st) x rip (ctime_now W)"
  shows "recorded (st_snitch (poll_loop L W cs st)) x rip (ctime_now W)"
proof (rule poll_loop_snitch_induct[where P = "\<lambda>u. recorded u x rip (ctime_now W)"])
  show "recorded (st_snitch st) x rip (ctime_now W)" by (rule assms)
next
  fix u :: snitch and p :: "'a proc" and rip' u'
  assume "recorded u x rip (ctime_now W)" "attribute (str_cmdline L) u p rip' (ctime_now W) = Inr u'"
  then show "recorded u' x rip (ctime_now W)" by (rule attribute_keeps_recorded)
next
  fix u :: snitch and es
  assume "recorded u x rip (ctime_now W)"
  then show "recorded (u\<lparr>Errors := Errors u @ es\<rparr>) x rip (ctime_now W)" by (simp add: recorded_def)
qed

lemma poll_conn_records:
  assumes "resolved L W c = Some p" "raddr c = Some ra"
  shows "recorded (st_snitch (poll_conn L W c st)) (proc_exe p) (ip ra) (ctime_now W)"
proof -
  have pub: "is_private L (ip ra) = Some False" and a: "as_dict W c = Some p"
    using assms by (auto simp: resolved_def public_conn_def split: if_splits)
  obtain la where la: "laddr c = Some la"
    using assms by (auto simp: resolved_def split: if_splits)
  obtain s' where s': "attribute (str_cmdline L) (st_snitch st) p (ip ra) (ctime_now W) = Inr s'"
     "poll_conn L W c st = \<lparr>st_snitch = s', st_proc = Some p, st_pcap = dict_pop (port la) (st_pcap st)\<rparr>"
    using poll_conn_resolved[OF assms(2) pub la a, of st] by auto
  show ?thesis using attribute_records[OF s'(1)] s'(2) by simp
qed

lemma poll_loop_records:
  assumes "c \<in> set cs" "resolved L W c = Some p" "raddr c = Some ra"
  shows "recorded (st_snitch (poll_loop L W cs st)) (proc_exe p) (ip ra) (ctime_now W)"
  using assms(1)
proof (induction cs arbitrary: st)
  case Nil
  then show ?case by simp
next
  case (Cons c0 cs)
  show ?case
  proof (cases "c0 = c")
    case True
    have "recorded (st_snitch (poll_conn L W c st)) (proc_exe p) (ip ra) (ctime_now W)"
      by (rule poll_conn_records[OF assms(2,3)])
    then show ?thesis using True poll_loop_keeps_recorded by simp
  next
    case False
    then have "c \<in> set cs" using Cons.prems by simp
    then show ?thesis using Cons.IH by simp
  qed
qed


lemma poll_unfold:
  "poll L W s last_connections d =
    (current_connections W,
     (st_snitch (poll_loop L W (new_connections W last_connections) \<lparr>st_snitch = s, st_proc = None, st_pcap = d\<rparr>))
       \<lparr>Errors := Errors (st_snitch (poll_loop L W (new_connections W last_connections) \<lparr>st_snitch = s, st_proc = None, st_pcap = d\<rparr>))
           @ missed_errors (ctime_now W) (st_pcap (poll_loop L W (new_connections W last_connections) \<lparr>st_snitch = s, st_proc = None, st_pcap = d\<rparr>))\<rparr>,
     st_pcap (poll_loop L W (new_connections W last_connections) \<lparr>st_snitch = s, st_proc = None, st_pcap = d\<rparr>))"
  by (simp add: poll_def Let_def)

lemma poll_Errors:
  "Errors (fst (snd (poll L W s last_connections d)))
     = Errors (st_snitch (poll_loop L W (new_connections W last_connections)
                 \<lparr>st_snitch = s, st_proc = None, st_pcap = d\<rparr>))
       @ missed_errors (ctime_now W) (snd (snd (poll L W s last_connections d)))"
  by (simp add: poll_unfold)

lemma poll_Processes:
  "Processes (fst (snd (poll L W s last_connections d)))
     = Processes (st_snitch (poll_loop L W (new_connections W last_connections)
                 \<lparr>st_snitch = s, st_proc = None, st_pcap = d\<rparr>))"
  by (simp add: poll_unfold)

lemma poll_failure_logged:
  assumes "c \<in> set (new_connections W last_connections)"
    and "public_conn L c" "laddr c \<noteq> None" "as_dict W c = None"
  shows "\<exists>pre tail post. Errors (fst (snd (poll L W s last_connections d)))
           = Errors s @ pre @ [ctime_now W @ '' '' @ str_conn L c @ tail] @ post"
proof -
  let ?st0 = "\<lparr>st_snitch = s, st_proc = None, st_pcap = d\<rparr>"
  from poll_loop_failure_logged[OF assms(1-4), of ?st0] show ?thesis
  proof (elim exE)
    fix pre tail post
    assume e: "Errors (st_snitch (poll_loop L W (new_connections W last_connections) ?st0))
           = Errors (st_snitch ?st0) @ pre @ [ctime_now W @ '' '' @ str_conn L c @ tail] @ post"
    have "Errors (fst (snd (poll L W s last_connections d)))
       = Errors s @ pre @ [ctime_now W @ '' '' @ str_conn L c @ tail]
           @ (post @ missed_errors (ctime_now W) (snd (snd (poll L W s last_connections d))))"
      unfolding poll_Errors e by simp
    then show ?thesis by (intro exI)
  qed
qed

lemma poll_records:
  assumes "c \<in> set (new_connections W last_connections)" "resolved L W c = Some p" "raddr c = Some ra"
  shows "recorded (fst (snd (poll L W s last_connections d))) (proc_exe p) (ip ra) (ctime_now W)"
proof -
  have "recorded (st_snitch (poll_loop L W (new_connections W last_connections)
                 \<lparr>st_snitch = s, st_proc = None, st_pcap = d\<rparr>)) (proc_exe p) (ip ra) (ctime_now W)"
    by (rule poll_loop_records[OF assms])
  then show ?thesis by (simp add: recorded_def poll_Processes)
qed

text \<open>
  Claim C8. If, in one tick, the process lookup raises for a new public connection \<open>c\<close>,
  then \<^verbatim>\<open>poll\<close> still returns the current connections; \<^verbatim>\<open>Errors\<close> is its old value
  followed by new lines, one of which is the timestamp, a space, the description of \<open>c\<close>
  and a note on the pid; and every new connection of the same tick that is resolved is
  recorded: after the tick the entry of its executable exists, holds its remote address
  and has the tick's timestamp as \<^verbatim>\<open>last seen\<close>.
\<close>

theorem resolution_failure_isolated:
  assumes "c \<in> set (new_connections W last_connections)"
    and "public_conn L c" "laddr c \<noteq> None" "as_dict W c = None"
    and "poll L W s last_connections d = (conns, s', d')"
  shows "conns = current_connections W
       \<and> (\<exists>pre tail post.
             Errors s' = Errors s @ pre @ [ctime_now W @ '' '' @ str_conn L c @ tail] @ post)
       \<and> (\<forall>c' p ra. c' \<in> set (new_connections W last_connections) \<and> resolved L W c' = Some p
               \<and> raddr c' = Some ra \<longrightarrow>
             (\<exists>e. Processes s' (proc_exe p) = Some e \<and> ip ra \<in> set (remote_addresses e)
                  \<and> last_seen e = ctime_now W))"
proof (intro conjI allI impI)
  have s': "fst (snd (poll L W s last_connections d)) = s'" using assms(5) by simp
  show "conns = current_connections W"
    using assms(5) poll_fst[of L W s last_connections d] by simp
  show "\<exists>pre tail post.
             Errors s' = Errors s @ pre @ [ctime_now W @ '' '' @ str_conn L c @ tail] @ post"
    using poll_failure_logged[OF assms(1-4), of s d] unfolding s' .
  show "\<exists>e. Processes s' (proc_exe p) = Some e \<and> ip ra \<in> set (remote_addresses e)
                  \<and> last_seen e = ctime_now W"
    if h: "c' \<in> set (new_connections W last_connections) \<and> resolved L W c' = Some p
          \<and> raddr c' = Some ra" for c' p ra
  proof -
    have "recorded (fst (snd (poll L W s last_connections d))) (proc_exe p) (ip ra) (ctime_now W)"
      by (rule poll_records[OF h[THEN conjunct1] h[THEN conjunct2, THEN conjunct1]
            h[THEN conjunct2, THEN conjunct2]])
    then have "recorded s' (proc_exe p) (ip ra) (ctime_now W)" unfolding s' .
    then show ?thesis by (cases "Processes s' (proc_exe p)") (simp_all add: recorded_def)
  qed
qed

lemma new_world3: "new_connections world3 [conn1] = [conn3, conn2, conn_local]"
  using conns_distinct
  by (simp add: new_connections_def current_connections_def world3_def)

lemma resolved_world3: "resolved lib0 world3 conn2 = Some curl"
  by (simp add: resolved_def public_conn_def lib0_def conn2_def world3_def)

theorem resolution_failure_isolated_witness:
  "conn3 \<in> set (new_connections world3 [conn1]) \<and> public_conn lib0 conn3 \<and> laddr conn3 \<noteq> None \<and>
   as_dict world3 conn3 = None \<and>
   fst (poll lib0 world3 state1 [conn1] []) = current_connections world3 \<and>
   (\<exists>pre tail post. Errors (fst (snd (poll lib0 world3 state1 [conn1] [])))
        = Errors state1 @ pre @ [t_jan2 @ '' '' @ ''sconn(fd=5)'' @ tail] @ post) \<and>
   (\<exists>e. Processes (fst (snd (poll lib0 world3 state1 [conn1] []))) ''/usr/bin/curl'' = Some e \<and>
        ''8.8.8.8'' \<in> set (remote_addresses e) \<and> last_seen e = t_jan2)"
proof -
  have h1: "conn3 \<in> set (new_connections world3 [conn1])" by (simp add: new_world3)
  have h2: "public_conn lib0 conn3" by (simp add: public_conn_def lib0_def conn3_def)
  have h3: "laddr conn3 \<noteq> None" by (simp add: conn3_def)
  have h4: "as_dict world3 conn3 = None" using conns_distinct by (simp add: world3_def)
  have h5: "poll lib0 world3 state1 [conn1] []
     = (fst (poll lib0 world3 state1 [conn1] []), fst (snd (poll lib0 world3 state1 [conn1] [])),
        snd (snd (poll lib0 world3 state1 [conn1] [])))" by simp
  have k1: "conn2 \<in> set (new_connections world3 [conn1])" by (simp add: new_world3)
  have k2: "raddr conn2 = Some \<lparr>ip = ''8.8.8.8'', port = 443\<rparr>" by (simp add: conn2_def)
  have n: "ctime_now world3 = t_jan2" by (simp add: world3_def)
  have "digit_char 5 = CHR ''5''" by (simp add: digit_char_def char_of_def bit_0)
  then have sc: "str_conn lib0 conn3 = ''sconn(fd=5)''" by (simp add: lib0_def conn3_def)
  have x: "proc_exe curl = ''/usr/bin/curl''" by (simp add: curl_def)
  note inst = resolution_failure_isolated[OF h1 h2 h3 h4 h5]
  have a: "fst (poll lib0 world3 state1 [conn1] []) = current_connections world3"
    by (rule inst[THEN conjunct1])
  obtain pre tail post where e: "Errors (fst (snd (poll lib0 world3 state1 [conn1] [])))
        = Errors state1 @ pre @ [ctime_now world3 @ '' '' @ str_conn lib0 conn3 @ tail] @ post"
    using inst[THEN conjunct2, THEN conjunct1] by blast
  have "Errors (fst (snd (poll lib0 world3 state1 [conn1] [])))
        = Errors state1 @ pre @ [t_jan2 @ '' '' @ ''sconn(fd=5)'' @ tail] @ post"
    unfolding e n sc by (rule refl)
  then have b: "\<exists>pre tail post. Errors (fst (snd (poll lib0 world3 state1 [conn1] [])))
        = Errors state1 @ pre @ [t_jan2 @ '' '' @ ''sconn(fd=5)'' @ tail] @ post"
    by blast
  have k: "conn2 \<in> set (new_connections world3 [conn1]) \<and> resolved lib0 world3 conn2 = Some curl
        \<and> raddr conn2 = Some \<lparr>ip = ''8.8.8.8'', port = 443\<rparr>"
    using k1 k2 resolved_world3 by blast
  obtain e2 where e2: "Processes (fst (snd (poll lib0 world3 state1 [conn1] []))) (proc_exe curl) = Some e2"
        "ip \<lparr>ip = ''8.8.8.8'', port = 443\<rparr> \<in> set (remote_addresses e2)" "last_seen e2 = ctime_now world3"
    using inst[THEN conjunct2, THEN conjunct2, rule_format, OF k] by blast
  have c: "\<exists>e. Processes (fst (snd (poll lib0 world3 state1 [conn1] []))) ''/usr/bin/curl'' = Some e \<and>
        ''8.8.8.8'' \<in> set (remote_addresses e) \<and> last_seen e = t_jan2"
    using e2 n x by auto
  from a b c h1 h2 h3 h4 show ?thesis by blast
qed


end
